theory Spec2Isabelle
  imports Complex_Main
begin

section \<open>Data model of \<^verbatim>\<open>brew_distance.py\<close>\<close>

text \<open>
  The enumeration \<^verbatim>\<open>Move\<close>, in the order of its declaration (the order in which
  \<^verbatim>\<open>for m in Move\<close> iterates).
\<close>

datatype Move = MATCH | INS | DEL | SUBST | INITIAL

text \<open>
  The named tuple \<^verbatim>\<open>Traceback(cost, move, traceback)\<close>. The chain of predecessors is
  a value of the datatype, so it is finite and acyclic by construction, as the chain built
  by the code is. Numbers are modelled as exact reals: Python integers are reals, and the
  rounding of floats is outside this model.
\<close>

datatype Traceback = Traceback (cost: real) (move: Move) (traceback: "Traceback option")

text \<open>
  Python values that reach the public function: a string, a number, or something that is
  neither (\<^verbatim>\<open>None\<close> stands for it).
\<close>

datatype pyval = PyNum real | PyStr string | PyNone

text \<open>
  The exceptions the code can raise. The repository has one exception class of its own,
  \<^verbatim>\<open>BrewDistanceException\<close>, raised with three different messages; the others are
  Python's.
\<close>

datatype error = BrewDistanceException string | KeyError | IndexError | TypeError | AttributeError

definition non_string_input :: error where
  "non_string_input = BrewDistanceException ''Brew-Distance: non-string input supplied.''"

definition invalid_output :: error where
  "invalid_output = BrewDistanceException ''Brew-Distance: invalid output parameter supplied.''"

definition invalid_cost :: error where
  "invalid_cost = BrewDistanceException ''Brew-Distance: invalid cost parameter supplied.''"

text \<open>What \<^verbatim>\<open>distance\<close> returns, by output mode.\<close>

datatype result = Distance pyval | Edits "Move list" | Both pyval "Move list"

type_synonym cost_dict = "Move \<Rightarrow> pyval option"

type_synonym table = "nat \<times> nat \<Rightarrow> Traceback option"

subsection \<open>Python primitives\<close>

text \<open>Sequencing of a computation that may raise.\<close>

definition and_then :: "error + 'a \<Rightarrow> ('a \<Rightarrow> error + 'b) \<Rightarrow> error + 'b" where
  "and_then r f = (case r of Inl e \<Rightarrow> Inl e | Inr v \<Rightarrow> f v)"

text \<open>\<^verbatim>\<open>d[k]\<close> on a dictionary raises \<^verbatim>\<open>KeyError\<close> on a missing key.\<close>

definition getitem :: "('k \<Rightarrow> 'v option) \<Rightarrow> 'k \<Rightarrow> error + 'v" where
  "getitem d k = (case d k of None \<Rightarrow> Inl KeyError | Some v \<Rightarrow> Inr v)"

text \<open>\<^verbatim>\<open>s[i]\<close> on a string, for the non-negative indices the loops produce.\<close>

definition char_at :: "string \<Rightarrow> nat \<Rightarrow> error + char" where
  "char_at s i = (if i < length s then Inr (s ! i) else Inl IndexError)"

text \<open>\<^verbatim>\<open>for i in range(0, n): body\<close>, stopping at the first exception.\<close>

fun for_in :: "nat list \<Rightarrow> (nat \<Rightarrow> 's \<Rightarrow> error + 's) \<Rightarrow> 's \<Rightarrow> error + 's" where
  "for_in [] body st = Inr st"
| "for_in (i # rest) body st = and_then (body i st) (for_in rest body)"

definition py_range :: "nat \<Rightarrow> nat list" where
  "py_range n = [0..<n]"

text \<open>\<^verbatim>\<open>isinstance(v, str)\<close> and \<^verbatim>\<open>isinstance(v, numbers.Real)\<close>.\<close>

fun is_str :: "pyval \<Rightarrow> bool" where
  "is_str (PyStr s) = True"
| "is_str v = False"

fun is_real :: "pyval \<Rightarrow> bool" where
  "is_real (PyNum x) = True"
| "is_real v = False"

fun str_of :: "pyval \<Rightarrow> string" where
  "str_of (PyStr s) = s"
| "str_of v = []"

fun num_of :: "pyval \<Rightarrow> real" where
  "num_of (PyNum x) = x"
| "num_of v = 0"

section \<open>The weighted engine\<close>

subsection \<open>\<^verbatim>\<open>_best\<close>\<close>

text \<open>
  Each argument is a triple (added cost, label, predecessor). Reading \<^verbatim>\<open>.cost\<close> of a
  predecessor that is \<^verbatim>\<open>None\<close> raises \<^verbatim>\<open>AttributeError\<close>. The triple
  \<open>(best_cost, move, traceback)\<close> is updated twice, each time only on a strictly smaller
  total, and the label is then overridden.
\<close>

definition pred_of :: "Traceback \<Rightarrow> error + Traceback" where
  "pred_of tb = (case traceback tb of None \<Rightarrow> Inl AttributeError | Some p \<Rightarrow> Inr p)"

definition best :: "Traceback \<Rightarrow> Traceback \<Rightarrow> Traceback \<Rightarrow> error + Traceback" where
  "best sub_move ins_move del_move =
     and_then (pred_of sub_move) (\<lambda>traceback1.
     and_then (pred_of ins_move) (\<lambda>traceback2.
     and_then (pred_of del_move) (\<lambda>traceback3.
       let cost_with_sub = cost sub_move + cost traceback1;
           cost_with_ins = cost ins_move + cost traceback2;
           cost_with_del = cost del_move + cost traceback3;
           b0 = (cost_with_sub, move sub_move, traceback1);
           b1 = (if cost_with_ins < fst b0 then (cost_with_ins, move ins_move, traceback2) else b0);
           b2 = (if cost_with_del < fst b1 then (cost_with_del, move del_move, traceback3) else b1)
       in (case b2 of (best_cost, mv, tb) \<Rightarrow>
             Inr (Traceback best_cost (if best_cost = cost tb then MATCH else mv) (Some tb))))))"

subsection \<open>\<^verbatim>\<open>_edit_path\<close>\<close>

text \<open>The five costs after the unpacking \<^verbatim>\<open>(cost[m] for m in Move)\<close>.\<close>

record costs =
  match_cost :: real
  ins_cost :: real
  del_cost :: real
  subst_cost :: real
  initial_cost :: real

text \<open>The body of the loop headed \<^verbatim>\<open># Deletions\<close>.\<close>

definition deletions_body :: "costs \<Rightarrow> nat \<Rightarrow> table \<Rightarrow> error + table" where
  "deletions_body c i distances =
     and_then (getitem distances (i, 0)) (\<lambda>prev.
       let so_far = cost prev
       in Inr (distances((i + 1, 0) \<mapsto> Traceback (so_far + del_cost c) DEL (Some prev))))"

text \<open>The body of the loop headed \<^verbatim>\<open># Insertions\<close>.\<close>

definition insertions_body :: "costs \<Rightarrow> nat \<Rightarrow> table \<Rightarrow> error + table" where
  "insertions_body c j distances =
     and_then (getitem distances (0, j)) (\<lambda>prev.
       let so_far = cost prev
       in Inr (distances((0, j + 1) \<mapsto> Traceback (so_far + ins_cost c) INS (Some prev))))"

text \<open>The body of the inner loop headed \<^verbatim>\<open># Substitutions\<close>.\<close>

definition substitutions_body ::
    "string \<Rightarrow> string \<Rightarrow> costs \<Rightarrow> nat \<Rightarrow> nat \<Rightarrow> table \<Rightarrow> error + table" where
  "substitutions_body string1 string2 c i j distances =
     and_then (char_at string1 i) (\<lambda>a.
     and_then (char_at string2 j) (\<lambda>b.
       let subst = (if a = b then match_cost c else subst_cost c)
       in and_then (getitem distances (i, j)) (\<lambda>diag.
          and_then (getitem distances (i + 1, j)) (\<lambda>left.
          and_then (getitem distances (i, j + 1)) (\<lambda>up.
          and_then (best (Traceback subst (if subst \<noteq> 0 then SUBST else MATCH) (Some diag))
                         (Traceback (ins_cost c) INS (Some left))
                         (Traceback (del_cost c) DEL (Some up))) (\<lambda>chosen.
            Inr (distances((i + 1, j + 1) \<mapsto> chosen))))))))"

text \<open>
  The three loops, from the origin cell on: the finished dictionary \<^verbatim>\<open>distances\<close>.
\<close>

definition fill_distances :: "string \<Rightarrow> string \<Rightarrow> costs \<Rightarrow> error + table" where
  "fill_distances string1 string2 c =
     (let len1 = length string1;
          len2 = length string2;
          distances = Map.empty((0, 0) \<mapsto> Traceback (initial_cost c) INITIAL None)
      in and_then (for_in (py_range len1) (deletions_body c) distances) (\<lambda>distances.
         and_then (for_in (py_range len2) (insertions_body c) distances) (\<lambda>distances.
           for_in (py_range len1)
             (\<lambda>i. for_in (py_range len2) (substitutions_body string1 string2 c i))
             distances)))"

definition edit_path :: "string \<Rightarrow> string \<Rightarrow> costs \<Rightarrow> error + Traceback" where
  "edit_path string1 string2 c =
     and_then (fill_distances string1 string2 c) (\<lambda>distances.
       getitem distances (length string1, length string2))"

subsection \<open>\<^verbatim>\<open>_list_edits\<close>\<close>

text \<open>
  The loop runs while the node has a predecessor and puts each label at the front of the
  list, so the origin's label is never put in the list.
\<close>

fun list_edits_loop :: "Traceback \<Rightarrow> Move list \<Rightarrow> Move list" where
  "list_edits_loop (Traceback c m None) just_edits = just_edits"
| "list_edits_loop (Traceback c m (Some p)) just_edits = list_edits_loop p (m # just_edits)"

definition list_edits :: "Traceback \<Rightarrow> Move list" where
  "list_edits raw_edits = list_edits_loop raw_edits []"

subsection \<open>\<^verbatim>\<open>distance\<close>\<close>

text \<open>
  The test \<^verbatim>\<open>not isinstance(cost[m], numbers.Real)\<close>: the subscript raises
  \<^verbatim>\<open>KeyError\<close> when the entry is missing.
\<close>

definition not_real_at :: "cost_dict \<Rightarrow> Move \<Rightarrow> error + bool" where
  "not_real_at cost_arg m = and_then (getitem cost_arg m) (\<lambda>v. Inr (\<not> is_real v))"

text \<open>
  The condition of the \<^verbatim>\<open>elif\<close>: four tests joined by \<^verbatim>\<open>or\<close>, evaluated left to
  right and stopping at the first that is true. \<^verbatim>\<open>Move.INITIAL\<close> is not among them.
\<close>

definition cost_invalid :: "cost_dict \<Rightarrow> error + bool" where
  "cost_invalid cost_arg =
     and_then (not_real_at cost_arg MATCH) (\<lambda>b1. if b1 then Inr True else
     and_then (not_real_at cost_arg INS) (\<lambda>b2. if b2 then Inr True else
     and_then (not_real_at cost_arg DEL) (\<lambda>b3. if b3 then Inr True else
     not_real_at cost_arg SUBST)))"

text \<open>
  The first statement of \<^verbatim>\<open>_edit_path\<close> after the lengths,
  \<^verbatim>\<open>(match_cost, ins_cost, del_cost, subst_cost, initial_cost) = (cost[m] for m in Move)\<close>:
  the five entries are read in the order of the enumeration, before the dictionary
  \<^verbatim>\<open>distances\<close> is created.
\<close>

definition unpack_costs :: "cost_dict \<Rightarrow> error + (pyval \<times> pyval \<times> pyval \<times> pyval \<times> pyval)" where
  "unpack_costs cost_arg =
     and_then (getitem cost_arg MATCH) (\<lambda>m.
     and_then (getitem cost_arg INS) (\<lambda>i.
     and_then (getitem cost_arg DEL) (\<lambda>d.
     and_then (getitem cost_arg SUBST) (\<lambda>s.
     and_then (getitem cost_arg INITIAL) (\<lambda>init. Inr (m, i, d, s, init))))))"

text \<open>The last \<^verbatim>\<open>if\<close> of \<^verbatim>\<open>distance\<close>: the shape of the result by output mode.\<close>

definition format_results :: "pyval \<Rightarrow> pyval \<Rightarrow> Move list \<Rightarrow> result" where
  "format_results output d es =
     (if output = PyStr ''distance'' then Distance d
      else if output = PyStr ''edits'' then Edits es
      else Both d es)"

text \<open>
  The call \<^verbatim>\<open>_edit_path(string1, string2, cost)\<close> and the use of its result. When it is
  reached the four costs that \<^verbatim>\<open>distance\<close> tested are numbers. The initial cost was not
  tested: if it is not a number, the origin cell holds it as it is; with two empty strings
  no loop runs and the origin cell is the result, and otherwise the first iteration of the
  first loop that runs adds a number to it, which raises \<^verbatim>\<open>TypeError\<close> for a string
  and for \<^verbatim>\<open>None\<close>.
\<close>

definition run_edit_path :: "string \<Rightarrow> string \<Rightarrow> pyval \<Rightarrow> cost_dict \<Rightarrow> error + result" where
  "run_edit_path string1 string2 output cost_arg =
     and_then (unpack_costs cost_arg) (\<lambda>(m, i, d, s, init).
       if is_real init then
         and_then (edit_path string1 string2
                     \<lparr>match_cost = num_of m, ins_cost = num_of i, del_cost = num_of d,
                      subst_cost = num_of s, initial_cost = num_of init\<rparr>) (\<lambda>results.
           Inr (format_results output (PyNum (cost results)) (list_edits results)))
       else if string1 = [] \<and> string2 = [] then Inr (format_results output init [])
       else Inl TypeError)"

definition distance :: "pyval \<Rightarrow> pyval \<Rightarrow> pyval \<Rightarrow> cost_dict \<Rightarrow> error + result" where
  "distance string1 string2 output cost_arg =
     (if \<not> is_str string1 \<or> \<not> is_str string2 then Inl non_string_input
      else if output \<noteq> PyStr ''both'' \<and> output \<noteq> PyStr ''distance'' \<and> output \<noteq> PyStr ''edits''
      then Inl invalid_output
      else and_then (cost_invalid cost_arg) (\<lambda>bad.
        if bad then Inl invalid_cost
        else run_edit_path (str_of string1) (str_of string2) output cost_arg))"

text \<open>The default value of the parameter \<^verbatim>\<open>cost\<close>.\<close>

definition default_cost :: cost_dict where
  "default_cost = [MATCH \<mapsto> PyNum 0, INS \<mapsto> PyNum 1, DEL \<mapsto> PyNum 1, SUBST \<mapsto> PyNum 1,
                   INITIAL \<mapsto> PyNum 0]"

section \<open>The fixed-cost implementation, \<^verbatim>\<open>string_distance.py\<close>\<close>

text \<open>
  \<^verbatim>\<open>sdist\<close> keeps a dictionary of numbers. The bodies of its three loops, then the
  function; the floats \<^verbatim>\<open>1.0\<close> and \<^verbatim>\<open>0.0\<close> are the reals 1 and 0.
\<close>

definition sdist_del_body :: "real \<Rightarrow> nat \<Rightarrow> (nat \<times> nat \<Rightarrow> real option) \<Rightarrow> error + (nat \<times> nat \<Rightarrow> real option)" where
  "sdist_del_body delCost i d =
     and_then (getitem d (i, 0)) (\<lambda>v. Inr (d((i + 1, 0) \<mapsto> v + delCost)))"

definition sdist_ins_body :: "real \<Rightarrow> nat \<Rightarrow> (nat \<times> nat \<Rightarrow> real option) \<Rightarrow> error + (nat \<times> nat \<Rightarrow> real option)" where
  "sdist_ins_body insCost j d =
     and_then (getitem d (0, j)) (\<lambda>v. Inr (d((0, j + 1) \<mapsto> v + insCost)))"

definition sdist_body ::
    "string \<Rightarrow> string \<Rightarrow> real \<Rightarrow> real \<Rightarrow> real \<Rightarrow> nat \<Rightarrow> nat \<Rightarrow> (nat \<times> nat \<Rightarrow> real option)
      \<Rightarrow> error + (nat \<times> nat \<Rightarrow> real option)" where
  "sdist_body string1 string2 delCost insCost substCost i j d =
     and_then (char_at string1 i) (\<lambda>a.
     and_then (char_at string2 j) (\<lambda>b.
       let subst = (if a = b then 0 else substCost)
       in and_then (getitem d (i, j)) (\<lambda>diag.
          and_then (getitem d (i + 1, j)) (\<lambda>left.
          and_then (getitem d (i, j + 1)) (\<lambda>up.
            Inr (d((i + 1, j + 1) \<mapsto> min (diag + subst) (min (left + insCost) (up + delCost)))))))))"

definition sdist :: "string \<Rightarrow> string \<Rightarrow> error + real" where
  "sdist string1 string2 =
     (let delCost = 1; insCost = 1; substCost = 1;
          m = length string1;
          n = length string2;
          d = Map.empty((0, 0) \<mapsto> 0)
      in and_then (for_in (py_range m) (sdist_del_body delCost) d) (\<lambda>d.
         and_then (for_in (py_range n) (sdist_ins_body insCost) d) (\<lambda>d.
         and_then (for_in (py_range m)
                     (\<lambda>i. for_in (py_range n) (sdist_body string1 string2 delCost insCost substCost i))
                     d) (\<lambda>d.
           getitem d (m, n)))))"

section \<open>Calls and the objects they share\<close>

text \<open>
  The objects of a state: cost dictionaries (the shared default and those of the caller) and
  the dictionary \<^verbatim>\<open>distances\<close> of a call, at addresses. \<open>OriginObj\<close> is that dictionary
  when its only node is an origin whose cost is not a number.
\<close>

datatype obj = CostObj cost_dict | TableObj table | OriginObj pyval

text \<open>
  \<open>default_addr\<close> is the address of the default value of \<^verbatim>\<open>cost\<close>, one object created when
  the function is defined and shared by every call that omits the argument; \<open>next_addr\<close> is
  the address that the next new object gets.
\<close>

record py_state =
  objects :: "nat \<Rightarrow> obj option"
  next_addr :: nat
  default_addr :: nat

text \<open>
  The dictionary that a call reads. An object that is not a cost dictionary has no entry for
  any operation kind.
\<close>

definition cost_at :: "py_state \<Rightarrow> nat \<Rightarrow> cost_dict" where
  "cost_at st a = (case objects st a of Some (CostObj c) \<Rightarrow> c | _ \<Rightarrow> Map.empty)"

text \<open>The parameter \<^verbatim>\<open>cost\<close>: omitted, or a reference to an object of the caller.\<close>

datatype cost_param = Omitted | Ref nat

definition cost_addr :: "py_state \<Rightarrow> cost_param \<Rightarrow> nat" where
  "cost_addr st p = (case p of Omitted \<Rightarrow> default_addr st | Ref a \<Rightarrow> a)"

text \<open>A loop over the objects; an exception stops it and keeps the objects as they are then.\<close>

fun for_st :: "nat list \<Rightarrow> (nat \<Rightarrow> 'h \<Rightarrow> error option \<times> 'h) \<Rightarrow> 'h \<Rightarrow> error option \<times> 'h" where
  "for_st [] body h = (None, h)"
| "for_st (i # rest) body h =
     (case body i h of (None, h') \<Rightarrow> for_st rest body h' | (Some e, h') \<Rightarrow> (Some e, h'))"

text \<open>
  A loop body of \<^verbatim>\<open>_edit_path\<close> run on the object that \<^verbatim>\<open>distances\<close> refers to: the
  assignment \<^verbatim>\<open>distances[k] = v\<close> updates the object at that address. The address holds
  that dictionary throughout the call, so the last case is never taken
  (\<open>edit_path_st_result\<close> below).
\<close>

definition table_step ::
    "nat \<Rightarrow> (table \<Rightarrow> error + table) \<Rightarrow> (nat \<Rightarrow> obj option) \<Rightarrow> error option \<times> (nat \<Rightarrow> obj option)" where
  "table_step n f h =
     (case h n of
        Some (TableObj d) \<Rightarrow>
          (case f d of Inl e \<Rightarrow> (Some e, h) | Inr d' \<Rightarrow> (None, h(n \<mapsto> TableObj d')))
      | _ \<Rightarrow> (Some TypeError, h))"

text \<open>
  \<^verbatim>\<open>_edit_path\<close> on a state: \<^verbatim>\<open>distances = dict()\<close> creates a new object at the next free
  address, the three loops update it, and the terminal node is read from it.
\<close>

definition edit_path_st :: "string \<Rightarrow> string \<Rightarrow> costs \<Rightarrow> py_state \<Rightarrow> (error + Traceback) \<times> py_state" where
  "edit_path_st string1 string2 c st =
     (let len1 = length string1;
          len2 = length string2;
          n = next_addr st;
          h0 = (objects st)(n \<mapsto> TableObj (Map.empty((0, 0) \<mapsto> Traceback (initial_cost c) INITIAL None)));
          loops =
            (case for_st (py_range len1) (\<lambda>i. table_step n (deletions_body c i)) h0 of
               (Some e, h) \<Rightarrow> (Some e, h)
             | (None, h) \<Rightarrow>
                 (case for_st (py_range len2) (\<lambda>j. table_step n (insertions_body c j)) h of
                    (Some e, h) \<Rightarrow> (Some e, h)
                  | (None, h) \<Rightarrow>
                      for_st (py_range len1)
                        (\<lambda>i. for_st (py_range len2)
                           (\<lambda>j. table_step n (substitutions_body string1 string2 c i j))) h))
      in case loops of
           (Some e, h) \<Rightarrow> (Inl e, st\<lparr>objects := h, next_addr := Suc n\<rparr>)
         | (None, h) \<Rightarrow>
             ((case h n of Some (TableObj d) \<Rightarrow> getitem d (len1, len2) | _ \<Rightarrow> Inl TypeError),
              st\<lparr>objects := h, next_addr := Suc n\<rparr>))"

text \<open>\<open>run_edit_path\<close> and \<^verbatim>\<open>distance\<close> on a state. The cost dictionary is only subscripted.\<close>

definition run_edit_path_st ::
    "string \<Rightarrow> string \<Rightarrow> pyval \<Rightarrow> cost_dict \<Rightarrow> py_state \<Rightarrow> (error + result) \<times> py_state" where
  "run_edit_path_st string1 string2 output cost_arg st =
     (case unpack_costs cost_arg of
        Inl e \<Rightarrow> (Inl e, st)
      | Inr (m, i, d, s, init) \<Rightarrow>
          if is_real init then
            (case edit_path_st string1 string2
                    \<lparr>match_cost = num_of m, ins_cost = num_of i, del_cost = num_of d,
                     subst_cost = num_of s, initial_cost = num_of init\<rparr> st of
               (Inl e, st') \<Rightarrow> (Inl e, st')
             | (Inr results, st') \<Rightarrow>
                 (Inr (format_results output (PyNum (cost results)) (list_edits results)), st'))
          else
            (if string1 = [] \<and> string2 = [] then Inr (format_results output init []) else Inl TypeError,
             st\<lparr>objects := (objects st)(next_addr st \<mapsto> OriginObj init),
                next_addr := Suc (next_addr st)\<rparr>))"

definition distance_st ::
    "pyval \<Rightarrow> pyval \<Rightarrow> pyval \<Rightarrow> cost_param \<Rightarrow> py_state \<Rightarrow> (error + result) \<times> py_state" where
  "distance_st string1 string2 output p st =
     (if \<not> is_str string1 \<or> \<not> is_str string2 then (Inl non_string_input, st)
      else if output \<noteq> PyStr ''both'' \<and> output \<noteq> PyStr ''distance'' \<and> output \<noteq> PyStr ''edits''
      then (Inl invalid_output, st)
      else (case cost_invalid (cost_at st (cost_addr st p)) of
              Inl e \<Rightarrow> (Inl e, st)
            | Inr bad \<Rightarrow>
                if bad then (Inl invalid_cost, st)
                else run_edit_path_st (str_of string1) (str_of string2) output
                       (cost_at st (cost_addr st p)) st))"

section \<open>Characterisation of the finished matrix\<close>

text \<open>
  What \<^verbatim>\<open>_best\<close> returns on three candidates that all have a predecessor, written as
  one expression: the vertical candidate wins only if strictly cheaper than both others, the
  horizontal one only if strictly cheaper than the diagonal one.
\<close>

definition pick :: "real \<Rightarrow> Move \<Rightarrow> Traceback \<Rightarrow> real \<Rightarrow> Traceback \<Rightarrow> real \<Rightarrow> Traceback \<Rightarrow> Traceback" where
  "pick a m p1 b p2 c p3 =
     (let t1 = a + cost p1; t2 = b + cost p2; t3 = c + cost p3
      in if t3 < t1 \<and> t3 < t2 then Traceback t3 (if t3 = cost p3 then MATCH else DEL) (Some p3)
         else if t2 < t1 then Traceback t2 (if t2 = cost p2 then MATCH else INS) (Some p2)
         else Traceback t1 (if t1 = cost p1 then MATCH else m) (Some p1))"

text \<open>The added cost of the diagonal transition into cell \<open>(i + 1, j + 1)\<close>.\<close>

definition diag_cost :: "costs \<Rightarrow> string \<Rightarrow> string \<Rightarrow> nat \<Rightarrow> nat \<Rightarrow> real" where
  "diag_cost c s t i j = (if s ! i = t ! j then match_cost c else subst_cost c)"

text \<open>
  The node that the loops store at key \<open>(i, j)\<close>, as a recursive function of the key;
  \<open>fill_distances_cells\<close> below proves that the dictionary built by the loops holds exactly
  these nodes.
\<close>

fun cell :: "costs \<Rightarrow> string \<Rightarrow> string \<Rightarrow> nat \<Rightarrow> nat \<Rightarrow> Traceback" where
  "cell c s t 0 0 = Traceback (initial_cost c) INITIAL None"
| "cell c s t (Suc i) 0 = Traceback (cost (cell c s t i 0) + del_cost c) DEL (Some (cell c s t i 0))"
| "cell c s t 0 (Suc j) = Traceback (cost (cell c s t 0 j) + ins_cost c) INS (Some (cell c s t 0 j))"
| "cell c s t (Suc i) (Suc j) =
     pick (diag_cost c s t i j) (if diag_cost c s t i j \<noteq> 0 then SUBST else MATCH) (cell c s t i j)
          (ins_cost c) (cell c s t (Suc i) j)
          (del_cost c) (cell c s t i (Suc j))"

text \<open>Loop invariant: the dictionary holds the expected value at every key of a region.\<close>

definition filled :: "(nat \<Rightarrow> nat \<Rightarrow> 'v) \<Rightarrow> (nat \<times> nat) set \<Rightarrow> (nat \<times> nat \<Rightarrow> 'v option) \<Rightarrow> bool" where
  "filled f R d = (\<forall>k\<in>R. d k = Some (f (fst k) (snd k)))"

text \<open>Column 0 together with the rows up to row \<open>i\<close>.\<close>

definition rows_upto :: "nat \<Rightarrow> nat \<Rightarrow> nat \<Rightarrow> (nat \<times> nat) set" where
  "rows_upto m n i = {(a, 0) | a. a \<le> m} \<union> {(a, b). a \<le> i \<and> b \<le> n}"


section \<open>Edit scripts\<close>

text \<open>
  An edit script transforms \<open>s\<close> into \<open>t\<close> when its steps, read from left to right,
  use up both strings: a match copies a source character equal to the next target character,
  a substitution replaces a source character by a different target character, an insertion
  adds the next target character, a deletion drops the next source character. The origin
  label \<^verbatim>\<open>INITIAL\<close> is not a step.
\<close>

fun transforms :: "Move list \<Rightarrow> string \<Rightarrow> string \<Rightarrow> bool" where
  "transforms [] s t = (s = [] \<and> t = [])"
| "transforms (MATCH # ms) (x # xs) (y # ys) = (x = y \<and> transforms ms xs ys)"
| "transforms (SUBST # ms) (x # xs) (y # ys) = (x \<noteq> y \<and> transforms ms xs ys)"
| "transforms (INS # ms) s (y # ys) = transforms ms s ys"
| "transforms (DEL # ms) (x # xs) t = transforms ms xs t"
| "transforms ms s t = False"

text \<open>
  Applying a list of edits to a source string, left to right; the target supplies the
  characters that insertions and substitutions write. The result is \<open>None\<close> when a step
  cannot be applied or the source is not used up.
\<close>

fun apply_edits :: "Move list \<Rightarrow> string \<Rightarrow> string \<Rightarrow> string option" where
  "apply_edits [] [] tgt = Some []"
| "apply_edits (MATCH # ms) (x # xs) tgt = map_option ((#) x) (apply_edits ms xs (tl tgt))"
| "apply_edits (INS # ms) src (y # ys) = map_option ((#) y) (apply_edits ms src ys)"
| "apply_edits (DEL # ms) (x # xs) tgt = apply_edits ms xs tgt"
| "apply_edits (SUBST # ms) (x # xs) (y # ys) = map_option ((#) y) (apply_edits ms xs ys)"
| "apply_edits ms src tgt = None"

text \<open>The cost of one step and the cost of a script, the sum over its steps.\<close>

fun op_cost :: "costs \<Rightarrow> Move \<Rightarrow> real" where
  "op_cost c MATCH = match_cost c"
| "op_cost c INS = ins_cost c"
| "op_cost c DEL = del_cost c"
| "op_cost c SUBST = subst_cost c"
| "op_cost c INITIAL = initial_cost c"

definition script_cost :: "costs \<Rightarrow> Move list \<Rightarrow> real" where
  "script_cost c ms = sum_list (map (op_cost c) ms)"

section \<open>Cost configurations\<close>

definition moves :: "Move list" where
  "moves = [MATCH, INS, DEL, SUBST, INITIAL]"

text \<open>The number stored for an operation kind, and the five costs as \<^verbatim>\<open>_edit_path\<close> unpacks them.\<close>

definition cost_of :: "cost_dict \<Rightarrow> Move \<Rightarrow> real" where
  "cost_of cost_arg m = (case cost_arg m of None \<Rightarrow> 0 | Some v \<Rightarrow> num_of v)"

definition costs_of :: "cost_dict \<Rightarrow> costs" where
  "costs_of cost_arg =
     \<lparr>match_cost = cost_of cost_arg MATCH, ins_cost = cost_of cost_arg INS,
      del_cost = cost_of cost_arg DEL, subst_cost = cost_of cost_arg SUBST,
      initial_cost = cost_of cost_arg INITIAL\<rparr>"


definition entries_real :: "cost_dict \<Rightarrow> Move list \<Rightarrow> bool" where
  "entries_real cost_arg ms =
     list_all (\<lambda>m. case cost_arg m of None \<Rightarrow> False | Some v \<Rightarrow> is_real v) ms"

definition valid_cost :: "cost_dict \<Rightarrow> bool" where
  "valid_cost cost_arg = entries_real cost_arg moves"


text \<open>The three recognised output modes.\<close>

definition modes :: "pyval set" where
  "modes = {PyStr ''both'', PyStr ''distance'', PyStr ''edits''}"

text \<open>The five costs of the default configuration.\<close>

definition unit_costs :: costs where
  "unit_costs = \<lparr>match_cost = 0, ins_cost = 1, del_cost = 1, subst_cost = 1, initial_cost = 0\<rparr>"


text \<open>The node of the terminal cell, for a cost dictionary.\<close>

definition final_cell :: "cost_dict \<Rightarrow> string \<Rightarrow> string \<Rightarrow> Traceback" where
  "final_cell cfg s t = cell (costs_of cfg) s t (length s) (length t)"

text \<open>A state whose only object is the shared default, holding the default configuration.\<close>

definition st0 :: py_state where
  "st0 = \<lparr>objects = (\<lambda>a. None)(0 \<mapsto> CostObj default_cost), next_addr = 1, default_addr = 0\<rparr>"

section \<open>Costs of cells and scripts\<close>

lemma cost_pick: "cost (pick a m p1 b p2 c p3) = min (a + cost p1) (min (b + cost p2) (c + cost p3))"
  by (simp add: pick_def Let_def min_def)






lemma transforms_append:
  "transforms ms1 s1 t1 \<Longrightarrow> transforms ms2 s2 t2 \<Longrightarrow> transforms (ms1 @ ms2) (s1 @ s2) (t1 @ t2)"
  by (induction ms1 s1 t1 rule: transforms.induct) auto



lemma script_cost_append: "script_cost c (ms1 @ ms2) = script_cost c ms1 + script_cost c ms2"
  by (simp add: script_cost_def)




lemma transforms_apply: "transforms ms s t \<Longrightarrow> apply_edits ms s t = Some t"
  by (induction ms s t rule: transforms.induct) auto

lemma transforms_no_initial: "transforms ms s t \<Longrightarrow> INITIAL \<notin> set ms"
  by (induction ms s t rule: transforms.induct) auto

section \<open>The loops fill the matrix\<close>

lemma and_then_Inr [simp]: "and_then (Inr v) f = f v"
  by (simp add: and_then_def)

lemma and_then_Inl [simp]: "and_then (Inl e) f = Inl e"
  by (simp add: and_then_def)

lemma getitem_Some: "d k = Some v \<Longrightarrow> getitem d k = Inr v"
  by (simp add: getitem_def)

lemma for_in_upt:
  assumes "P lo st" and "lo \<le> hi"
    and step: "\<And>i st. lo \<le> i \<Longrightarrow> i < hi \<Longrightarrow> P i st \<Longrightarrow> \<exists>st'. body i st = Inr st' \<and> P (Suc i) st'"
  shows "\<exists>st'. for_in [lo..<hi] body st = Inr st' \<and> P hi st'"
  using assms
proof (induction "hi - lo" arbitrary: lo st)
  case 0
  then show ?case by simp
next
  case (Suc n)
  then have lt: "lo < hi" by simp
  from Suc.prems(3)[OF le_refl lt Suc.prems(1)]
  obtain st1 where b: "body lo st = Inr st1" and p1: "P (Suc lo) st1" by blast
  have "\<exists>st'. for_in [Suc lo..<hi] body st1 = Inr st' \<and> P hi st'"
  proof (rule Suc.hyps(1))
    show "n = hi - Suc lo" using Suc.hyps(2) by simp
    show "P (Suc lo) st1" by (rule p1)
    show "Suc lo \<le> hi" using lt by simp
    show "\<And>i st. Suc lo \<le> i \<Longrightarrow> i < hi \<Longrightarrow> P i st \<Longrightarrow> \<exists>st'. body i st = Inr st' \<and> P (Suc i) st'"
      using Suc.prems(3) by simp
  qed
  then show ?case using lt b by (simp add: upt_conv_Cons)
qed

lemma for_range:
  assumes "P 0 st"
    and "\<And>i st. i < n \<Longrightarrow> P i st \<Longrightarrow> \<exists>st'. body i st = Inr st' \<and> P (Suc i) st'"
  shows "\<exists>st'. for_in (py_range n) body st = Inr st' \<and> P n st'"
  unfolding py_range_def using assms by (intro for_in_upt) auto

lemma filled_update:
  "filled f R d \<Longrightarrow> v = f a b \<Longrightarrow> R' \<subseteq> insert (a, b) R \<Longrightarrow> filled f R' (d((a, b) \<mapsto> v))"
  by (auto simp: filled_def)

lemma filled_mono: "filled f R d \<Longrightarrow> R' \<subseteq> R \<Longrightarrow> filled f R' d"
  by (auto simp: filled_def)

lemma filled_lookup: "filled f R d \<Longrightarrow> (a, b) \<in> R \<Longrightarrow> d (a, b) = Some (f a b)"
  by (auto simp: filled_def)

text \<open>The three loops fill the grid, whatever the cell values, once each body sets its cell.\<close>

lemma grid_fill:
  assumes init: "filled f {(0, 0)} d"
    and dstep: "\<And>i d R. i < m \<Longrightarrow> filled f R d \<Longrightarrow> (i, 0) \<in> R
                  \<Longrightarrow> dbody i d = Inr (d((Suc i, 0) \<mapsto> f (Suc i) 0))"
    and istep: "\<And>j d R. j < n \<Longrightarrow> filled f R d \<Longrightarrow> (0, j) \<in> R
                  \<Longrightarrow> ibody j d = Inr (d((0, Suc j) \<mapsto> f 0 (Suc j)))"
    and sstep: "\<And>i j d R. i < m \<Longrightarrow> j < n \<Longrightarrow> filled f R d
                  \<Longrightarrow> (i, j) \<in> R \<Longrightarrow> (Suc i, j) \<in> R \<Longrightarrow> (i, Suc j) \<in> R
                  \<Longrightarrow> sbody i j d = Inr (d((Suc i, Suc j) \<mapsto> f (Suc i) (Suc j)))"
  shows "\<exists>d1 d2 d3. for_in (py_range m) dbody d = Inr d1
           \<and> for_in (py_range n) ibody d1 = Inr d2
           \<and> for_in (py_range m) (\<lambda>i. for_in (py_range n) (sbody i)) d2 = Inr d3
           \<and> (\<forall>a b. a \<le> m \<and> b \<le> n \<longrightarrow> d3 (a, b) = Some (f a b))"
proof -
  let ?D = "\<lambda>i. {(a, 0) | a. a \<le> i}"
  have "\<exists>d1. for_in (py_range m) dbody d = Inr d1 \<and> filled f (?D m) d1"
  proof (rule for_range[where P = "\<lambda>i. filled f (?D i)"])
    show "filled f (?D 0) d" using init by (simp add: filled_def)
    fix i d0
    assume i: "i < m" and inv: "filled f (?D i) d0"
    have "dbody i d0 = Inr (d0((Suc i, 0) \<mapsto> f (Suc i) 0))"
      by (rule dstep[OF i inv]) simp
    moreover have "filled f (?D (Suc i)) (d0((Suc i, 0) \<mapsto> f (Suc i) 0))"
      by (rule filled_update[OF inv refl]) (auto simp: le_Suc_eq)
    ultimately show "\<exists>st'. dbody i d0 = Inr st' \<and> filled f (?D (Suc i)) st'" by blast
  qed
  then obtain d1 where r1: "for_in (py_range m) dbody d = Inr d1" and f1: "filled f (?D m) d1"
    by blast
  let ?I = "\<lambda>j. ?D m \<union> {(0, b) | b. b \<le> j}"
  have "\<exists>d2. for_in (py_range n) ibody d1 = Inr d2 \<and> filled f (?I n) d2"
  proof (rule for_range[where P = "\<lambda>j. filled f (?I j)"])
    show "filled f (?I 0) d1" by (rule filled_mono[OF f1]) auto
    fix j d0
    assume j: "j < n" and inv: "filled f (?I j) d0"
    have "ibody j d0 = Inr (d0((0, Suc j) \<mapsto> f 0 (Suc j)))"
      by (rule istep[OF j inv]) simp
    moreover have "filled f (?I (Suc j)) (d0((0, Suc j) \<mapsto> f 0 (Suc j)))"
      by (rule filled_update[OF inv refl]) (auto simp: le_Suc_eq)
    ultimately show "\<exists>st'. ibody j d0 = Inr st' \<and> filled f (?I (Suc j)) st'" by blast
  qed
  then obtain d2 where r2: "for_in (py_range n) ibody d1 = Inr d2" and f2: "filled f (?I n) d2"
    by blast
  let ?S = "\<lambda>i. rows_upto m n i"
  have "\<exists>d3. for_in (py_range m) (\<lambda>i. for_in (py_range n) (sbody i)) d2 = Inr d3 \<and> filled f (?S m) d3"
  proof (rule for_range[where P = "\<lambda>i. filled f (?S i)"])
    show "filled f (?S 0) d2" by (rule filled_mono[OF f2]) (auto simp: rows_upto_def)
    fix i d0
    assume i: "i < m" and inv: "filled f (?S i) d0"
    let ?Q = "\<lambda>j. ?S i \<union> {(Suc i, b) | b. b \<le> j}"
    have "\<exists>d'. for_in (py_range n) (sbody i) d0 = Inr d' \<and> filled f (?Q n) d'"
    proof (rule for_range[where P = "\<lambda>j. filled f (?Q j)"])
      show "filled f (?Q 0) d0"
        by (rule filled_mono[OF inv]) (use i in \<open>auto simp: rows_upto_def\<close>)
      fix j e
      assume j: "j < n" and inv': "filled f (?Q j) e"
      have "sbody i j e = Inr (e((Suc i, Suc j) \<mapsto> f (Suc i) (Suc j)))"
        by (rule sstep[OF i j inv']) (use j in \<open>auto simp: rows_upto_def\<close>)
      moreover have "filled f (?Q (Suc j)) (e((Suc i, Suc j) \<mapsto> f (Suc i) (Suc j)))"
        by (rule filled_update[OF inv' refl]) (auto simp: le_Suc_eq)
      ultimately show "\<exists>st'. sbody i j e = Inr st' \<and> filled f (?Q (Suc j)) st'" by blast
    qed
    then obtain d' where r: "for_in (py_range n) (sbody i) d0 = Inr d'"
      and fin: "filled f (?Q n) d'" by blast
    have "filled f (?S (Suc i)) d'"
      by (rule filled_mono[OF fin]) (auto simp: rows_upto_def le_Suc_eq)
    with r show "\<exists>st'. for_in (py_range n) (sbody i) d0 = Inr st' \<and> filled f (?S (Suc i)) st'"
      by blast
  qed
  then obtain d3 where r3: "for_in (py_range m) (\<lambda>i. for_in (py_range n) (sbody i)) d2 = Inr d3"
    and f3: "filled f (?S m) d3" by blast
  have "\<forall>a b. a \<le> m \<and> b \<le> n \<longrightarrow> d3 (a, b) = Some (f a b)"
    using f3 by (auto simp: filled_def rows_upto_def)
  with r1 r2 r3 show ?thesis by blast
qed

lemma best_pick:
  "best (Traceback a m (Some p1)) (Traceback b INS (Some p2)) (Traceback c DEL (Some p3))
     = Inr (pick a m p1 b p2 c p3)"
  by (simp add: best_def pred_of_def pick_def Let_def)

lemma fill_distances_cells:
  "\<exists>d. fill_distances s t c = Inr d
       \<and> (\<forall>a b. a \<le> length s \<and> b \<le> length t \<longrightarrow> d (a, b) = Some (cell c s t a b))"
proof -
  let ?d0 = "(Map.empty :: table)((0, 0) \<mapsto> Traceback (initial_cost c) INITIAL None)"
  have "\<exists>d1 d2 d3. for_in (py_range (length s)) (deletions_body c) ?d0 = Inr d1
           \<and> for_in (py_range (length t)) (insertions_body c) d1 = Inr d2
           \<and> for_in (py_range (length s))
                (\<lambda>i. for_in (py_range (length t)) (substitutions_body s t c i)) d2 = Inr d3
           \<and> (\<forall>a b. a \<le> length s \<and> b \<le> length t \<longrightarrow> d3 (a, b) = Some (cell c s t a b))"
  proof (rule grid_fill)
    show "filled (cell c s t) {(0, 0)} ?d0" by (simp add: filled_def)
  next
    fix i d R
    assume "filled (cell c s t) R d" and "(i, 0) \<in> R"
    then have "d (i, 0) = Some (cell c s t i 0)" by (rule filled_lookup)
    then show "deletions_body c i d = Inr (d((Suc i, 0) \<mapsto> cell c s t (Suc i) 0))"
      by (simp add: deletions_body_def getitem_Some)
  next
    fix j d R
    assume "filled (cell c s t) R d" and "(0, j) \<in> R"
    then have "d (0, j) = Some (cell c s t 0 j)" by (rule filled_lookup)
    then show "insertions_body c j d = Inr (d((0, Suc j) \<mapsto> cell c s t 0 (Suc j)))"
      by (simp add: insertions_body_def getitem_Some)
  next
    fix i j d R
    assume i: "i < length s" and j: "j < length t" and inv: "filled (cell c s t) R d"
      and "(i, j) \<in> R" "(Suc i, j) \<in> R" "(i, Suc j) \<in> R"
    then have "d (i, j) = Some (cell c s t i j)" "d (Suc i, j) = Some (cell c s t (Suc i) j)"
      "d (i, Suc j) = Some (cell c s t i (Suc j))"
      by (blast intro: filled_lookup)+
    then show "substitutions_body s t c i j d = Inr (d((Suc i, Suc j) \<mapsto> cell c s t (Suc i) (Suc j)))"
      using i j
      by (simp add: substitutions_body_def char_at_def getitem_Some best_pick diag_cost_def Let_def)
  qed
  then show ?thesis by (auto simp: fill_distances_def Let_def)
qed

lemma edit_path_cell: "edit_path s t c = Inr (cell c s t (length s) (length t))"
proof -
  obtain d where "fill_distances s t c = Inr d"
    and "\<forall>a b. a \<le> length s \<and> b \<le> length t \<longrightarrow> d (a, b) = Some (cell c s t a b)"
    using fill_distances_cells by blast
  then show ?thesis by (simp add: edit_path_def getitem_Some)
qed

lemma sdist_cell: "sdist s t = Inr (cost (cell unit_costs s t (length s) (length t)))"
proof -
  let ?f = "\<lambda>a b. cost (cell unit_costs s t a b)"
  let ?d0 = "(Map.empty :: nat \<times> nat \<Rightarrow> real option)((0, 0) \<mapsto> 0)"
  have "\<exists>d1 d2 d3. for_in (py_range (length s)) (sdist_del_body 1) ?d0 = Inr d1
           \<and> for_in (py_range (length t)) (sdist_ins_body 1) d1 = Inr d2
           \<and> for_in (py_range (length s))
                (\<lambda>i. for_in (py_range (length t)) (sdist_body s t 1 1 1 i)) d2 = Inr d3
           \<and> (\<forall>a b. a \<le> length s \<and> b \<le> length t \<longrightarrow> d3 (a, b) = Some (?f a b))"
  proof (rule grid_fill)
    show "filled ?f {(0, 0)} ?d0" by (simp add: filled_def unit_costs_def)
  next
    fix i d R
    assume "filled ?f R d" and "(i, 0) \<in> R"
    then have "d (i, 0) = Some (?f i 0)" by (rule filled_lookup)
    then show "sdist_del_body 1 i d = Inr (d((Suc i, 0) \<mapsto> ?f (Suc i) 0))"
      by (simp add: sdist_del_body_def getitem_Some unit_costs_def)
  next
    fix j d R
    assume "filled ?f R d" and "(0, j) \<in> R"
    then have "d (0, j) = Some (?f 0 j)" by (rule filled_lookup)
    then show "sdist_ins_body 1 j d = Inr (d((0, Suc j) \<mapsto> ?f 0 (Suc j)))"
      by (simp add: sdist_ins_body_def getitem_Some unit_costs_def)
  next
    fix i j d R
    assume i: "i < length s" and j: "j < length t" and inv: "filled ?f R d"
      and mem: "(i, j) \<in> R" "(Suc i, j) \<in> R" "(i, Suc j) \<in> R"
    from inv have "\<And>a b. (a, b) \<in> R \<Longrightarrow> d (a, b) = Some (?f a b)"
      by (auto simp: filled_def)
    with mem have "d (i, j) = Some (?f i j)" "d (Suc i, j) = Some (?f (Suc i) j)"
      "d (i, Suc j) = Some (?f i (Suc j))"
      by blast+
    then show "sdist_body s t 1 1 1 i j d = Inr (d((Suc i, Suc j) \<mapsto> ?f (Suc i) (Suc j)))"
      using i j
      by (simp add: sdist_body_def char_at_def getitem_Some cost_pick diag_cost_def Let_def
          unit_costs_def add.commute)
  qed
  then obtain d1 d2 d3 where "for_in (py_range (length s)) (sdist_del_body 1) ?d0 = Inr d1"
    "for_in (py_range (length t)) (sdist_ins_body 1) d1 = Inr d2"
    "for_in (py_range (length s)) (\<lambda>i. for_in (py_range (length t)) (sdist_body s t 1 1 1 i)) d2 = Inr d3"
    "d3 (length s, length t) = Some (?f (length s) (length t))"
    by blast
  then show ?thesis by (simp add: sdist_def Let_def getitem_Some)
qed

section \<open>The public function on valid configurations\<close>

lemma valid_cost_entry: "valid_cost cfg \<Longrightarrow> cfg m = Some (PyNum (cost_of cfg m))"
proof -
  assume v: "valid_cost cfg"
  have "m \<in> set moves" by (cases m) (simp_all add: moves_def)
  with v have "case cfg m of None \<Rightarrow> False | Some v \<Rightarrow> is_real v"
    by (simp add: valid_cost_def entries_real_def list_all_iff)
  then obtain x where "cfg m = Some (PyNum x)"
    by (auto split: option.splits elim: is_real.elims)
  then show ?thesis by (simp add: cost_of_def)
qed

lemma cost_invalid_valid: "valid_cost cfg \<Longrightarrow> cost_invalid cfg = Inr False"
  by (simp add: cost_invalid_def not_real_at_def getitem_def valid_cost_entry)

lemma unpack_costs_valid:
  "valid_cost cfg \<Longrightarrow> unpack_costs cfg =
     Inr (PyNum (cost_of cfg MATCH), PyNum (cost_of cfg INS), PyNum (cost_of cfg DEL),
          PyNum (cost_of cfg SUBST), PyNum (cost_of cfg INITIAL))"
  by (simp add: unpack_costs_def getitem_def valid_cost_entry)

lemma run_edit_path_valid:
  "valid_cost cfg \<Longrightarrow> run_edit_path s t out cfg =
     Inr (format_results out (PyNum (cost (final_cell cfg s t))) (list_edits (final_cell cfg s t)))"
  by (simp add: run_edit_path_def unpack_costs_valid edit_path_cell final_cell_def costs_of_def)

lemma distance_valid:
  "valid_cost cfg \<Longrightarrow> out \<in> modes \<Longrightarrow> distance (PyStr s) (PyStr t) out cfg =
     Inr (format_results out (PyNum (cost (final_cell cfg s t))) (list_edits (final_cell cfg s t)))"
  by (auto simp: distance_def modes_def cost_invalid_valid run_edit_path_valid)

lemma costs_of_default: "costs_of default_cost = unit_costs"
  by (simp add: costs_of_def default_cost_def cost_of_def unit_costs_def)

lemma valid_default: "valid_cost default_cost"
  by (simp add: valid_cost_def entries_real_def default_cost_def moves_def)


lemma list_edits_loop_app: "list_edits_loop tb (acc @ rest) = list_edits_loop tb acc @ rest"
  by (induction tb acc rule: list_edits_loop.induct) simp_all

lemma list_edits_None [simp]: "list_edits (Traceback c m None) = []"
  by (simp add: list_edits_def)

lemma list_edits_Some [simp]: "list_edits (Traceback c m (Some p)) = list_edits p @ [m]"
  using list_edits_loop_app[of p "[]" "[m]"] by (simp add: list_edits_def)

lemma transforms_snoc_del: "transforms ms u v \<Longrightarrow> transforms (ms @ [DEL]) (u @ [x]) v"
  using transforms_append[of ms u v "[DEL]" "[x]" "[]"] by simp

lemma transforms_snoc_ins: "transforms ms u v \<Longrightarrow> transforms (ms @ [INS]) u (v @ [y])"
  using transforms_append[of ms u v "[INS]" "[]" "[y]"] by simp

lemma transforms_snoc_match: "transforms ms u v \<Longrightarrow> transforms (ms @ [MATCH]) (u @ [x]) (v @ [x])"
  using transforms_append[of ms u v "[MATCH]" "[x]" "[x]"] by simp

lemma transforms_snoc_subst:
  "transforms ms u v \<Longrightarrow> x \<noteq> y \<Longrightarrow> transforms (ms @ [SUBST]) (u @ [x]) (v @ [y])"
  using transforms_append[of ms u v "[SUBST]" "[x]" "[y]"] by simp

lemma unit_costs_sel:
  "match_cost unit_costs = 0" "ins_cost unit_costs = 1" "del_cost unit_costs = 1"
  "subst_cost unit_costs = 1" "initial_cost unit_costs = 0"
  by (simp_all add: unit_costs_def)

lemma default_script:
  "i \<le> length s \<Longrightarrow> j \<le> length t
     \<Longrightarrow> transforms (list_edits (cell unit_costs s t i j)) (take i s) (take j t)"
proof (induction unit_costs s t i j rule: cell.induct)
  case (1 s t)
  then show ?case by simp
next
  case (2 s t i)
  then show ?case
    using transforms_snoc_del[of "list_edits (cell unit_costs s t i 0)" "take i s" "[]" "s ! i"]
    by (simp add: take_Suc_conv_app_nth)
next
  case (3 s t j)
  then show ?case
    using transforms_snoc_ins[of "list_edits (cell unit_costs s t 0 j)" "[]" "take j t" "t ! j"]
    by (simp add: take_Suc_conv_app_nth)
next
  case (4 s t i j)
  let ?p1 = "cell unit_costs s t i j" and ?p2 = "cell unit_costs s t (Suc i) j"
    and ?p3 = "cell unit_costs s t i (Suc j)"
  from 4 have i: "i < length s" and j: "j < length t" by simp_all
  have ts: "take (Suc i) s = take i s @ [s ! i]" "take (Suc j) t = take j t @ [t ! j]"
    using i j by (simp_all add: take_Suc_conv_app_nth)
  have h1: "transforms (list_edits ?p1) (take i s) (take j t)" using 4 by simp
  have h2: "transforms (list_edits ?p2) (take (Suc i) s) (take j t)" using 4 by simp
  have h3: "transforms (list_edits ?p3) (take i s) (take (Suc j) t)" using 4 by simp
  have d: "transforms (list_edits ?p1 @ [if s ! i = t ! j then MATCH else SUBST])
             (take (Suc i) s) (take (Suc j) t)"
    using h1 by (simp add: ts transforms_snoc_match transforms_snoc_subst)
  have ins: "transforms (list_edits ?p2 @ [INS]) (take (Suc i) s) (take (Suc j) t)"
    using transforms_snoc_ins[OF h2, of "t ! j"] by (simp add: ts)
  have del: "transforms (list_edits ?p3 @ [DEL]) (take (Suc i) s) (take (Suc j) t)"
    using transforms_snoc_del[OF h3, of "s ! i"] by (simp add: ts)
  show ?case
    using d ins del
    by (auto simp: pick_def diag_cost_def unit_costs_sel Let_def split: if_splits)
qed

lemmas run_defs = distance_def default_cost_def cost_invalid_def not_real_at_def getitem_def
  run_edit_path_def unpack_costs_def edit_path_def fill_distances_def py_range_def upt_rec
  deletions_body_def insertions_body_def substitutions_body_def best_def pred_of_def char_at_def
  format_results_def list_edits_def Let_def









lemma cost_invalid_cases: "cost_invalid cfg = Inl KeyError \<or> (\<exists>b. cost_invalid cfg = Inr b)"
  by (auto simp: cost_invalid_def not_real_at_def getitem_def split: option.splits)

lemma run_edit_path_cases:
  "run_edit_path s t out cfg = Inl KeyError \<or> run_edit_path s t out cfg = Inl TypeError
     \<or> (\<exists>r. run_edit_path s t out cfg = Inr r)"
  by (auto simp: run_edit_path_def unpack_costs_def getitem_def edit_path_cell split: option.splits)

lemma exception_distinct:
  "non_string_input \<noteq> invalid_output" "non_string_input \<noteq> invalid_cost"
  "invalid_output \<noteq> invalid_cost" "non_string_input \<noteq> KeyError" "non_string_input \<noteq> TypeError"
  "invalid_output \<noteq> KeyError" "invalid_output \<noteq> TypeError"
  "invalid_cost \<noteq> KeyError" "invalid_cost \<noteq> TypeError"
  by (simp_all add: non_string_input_def invalid_output_def invalid_cost_def)

lemma after_checks_cases:
  "and_then (cost_invalid cfg) (\<lambda>bad. if bad then Inl invalid_cost else run_edit_path s t out cfg)
     \<in> {Inl KeyError, Inl TypeError, Inl invalid_cost} \<or>
   (\<exists>r. and_then (cost_invalid cfg) (\<lambda>bad. if bad then Inl invalid_cost else run_edit_path s t out cfg) = Inr r)"
proof -
  consider "cost_invalid cfg = Inl KeyError" | "cost_invalid cfg = Inr True"
    | "cost_invalid cfg = Inr False"
    using cost_invalid_cases[of cfg] by (metis (full_types))
  then show ?thesis
  proof cases
    case 3
    then show ?thesis using run_edit_path_cases[of s t out cfg] by auto
  qed simp_all
qed









section \<open>Calls on a state\<close>

lemma for_st_sim:
  assumes step: "\<And>i h d d'. h n = Some (TableObj d) \<Longrightarrow> g i d = Inr d'
                    \<Longrightarrow> B i h = (None, h(n \<mapsto> TableObj d'))"
  shows "h n = Some (TableObj d) \<Longrightarrow> for_in xs g d = Inr d'
           \<Longrightarrow> for_st xs B h = (None, h(n \<mapsto> TableObj d'))"
proof (induction xs arbitrary: h d)
  case Nil
  then have "d' = d" and "h(n \<mapsto> TableObj d) = h" by (simp_all add: fun_upd_idem)
  then show ?case by simp
next
  case (Cons i xs)
  from Cons.prems(2) obtain d1 where d1: "g i d = Inr d1" and rest: "for_in xs g d1 = Inr d'"
    by (cases "g i d") simp_all
  have b: "B i h = (None, h(n \<mapsto> TableObj d1))"
    using Cons.prems(1) d1 by (rule step)
  have ih: "for_st xs B (h(n \<mapsto> TableObj d1)) = (None, (h(n \<mapsto> TableObj d1))(n \<mapsto> TableObj d'))"
    by (rule Cons.IH[OF _ rest]) simp
  have "for_st (i # xs) B h = for_st xs B (h(n \<mapsto> TableObj d1))"
    by (simp add: b)
  also have "\<dots> = (None, h(n \<mapsto> TableObj d'))"
    by (simp only: ih fun_upd_upd)
  finally show ?case .
qed

lemma table_step_ok:
  "h n = Some (TableObj d) \<Longrightarrow> f d = Inr d' \<Longrightarrow> table_step n f h = (None, h(n \<mapsto> TableObj d'))"
  by (simp add: table_step_def)

lemma loops_succeed:
  "\<exists>d1 d2 d3. for_in (py_range (length s)) (deletions_body c)
                  (Map.empty((0, 0) \<mapsto> Traceback (initial_cost c) INITIAL None)) = Inr d1
     \<and> for_in (py_range (length t)) (insertions_body c) d1 = Inr d2
     \<and> for_in (py_range (length s))
          (\<lambda>i. for_in (py_range (length t)) (substitutions_body s t c i)) d2 = Inr d3
     \<and> d3 (length s, length t) = Some (cell c s t (length s) (length t))"
proof -
  obtain d where d: "fill_distances s t c = Inr d"
    and cells: "\<forall>a b. a \<le> length s \<and> b \<le> length t \<longrightarrow> d (a, b) = Some (cell c s t a b)"
    using fill_distances_cells by blast
  let ?d0 = "(Map.empty :: table)((0, 0) \<mapsto> Traceback (initial_cost c) INITIAL None)"
  from d obtain d1 where r1: "for_in (py_range (length s)) (deletions_body c) ?d0 = Inr d1"
    by (cases "for_in (py_range (length s)) (deletions_body c) ?d0")
       (simp_all add: fill_distances_def Let_def)
  from d r1 obtain d2 where r2: "for_in (py_range (length t)) (insertions_body c) d1 = Inr d2"
    by (cases "for_in (py_range (length t)) (insertions_body c) d1")
       (simp_all add: fill_distances_def Let_def)
  from d r1 r2 have r3: "for_in (py_range (length s))
          (\<lambda>i. for_in (py_range (length t)) (substitutions_body s t c i)) d2 = Inr d"
    by (simp add: fill_distances_def Let_def)
  from cells have "d (length s, length t) = Some (cell c s t (length s) (length t))" by simp
  with r1 r2 r3 show ?thesis by blast
qed

lemma edit_path_st_result:
  "\<exists>d. edit_path_st s t c st =
     (Inr (cell c s t (length s) (length t)),
      st\<lparr>objects := (objects st)(next_addr st \<mapsto> TableObj d), next_addr := Suc (next_addr st)\<rparr>)"
proof -
  let ?n = "next_addr st"
  let ?d0 = "(Map.empty :: table)((0, 0) \<mapsto> Traceback (initial_cost c) INITIAL None)"
  let ?h0 = "(objects st)(?n \<mapsto> TableObj ?d0)"
  obtain d1 d2 d3 where r1: "for_in (py_range (length s)) (deletions_body c) ?d0 = Inr d1"
    and r2: "for_in (py_range (length t)) (insertions_body c) d1 = Inr d2"
    and r3: "for_in (py_range (length s))
               (\<lambda>i. for_in (py_range (length t)) (substitutions_body s t c i)) d2 = Inr d3"
    and fin: "d3 (length s, length t) = Some (cell c s t (length s) (length t))"
    using loops_succeed[of s c t] by blast
  have s1: "for_st (py_range (length s)) (\<lambda>i. table_step ?n (deletions_body c i)) ?h0
              = (None, ?h0(?n \<mapsto> TableObj d1))"
    by (rule for_st_sim[where g = "deletions_body c", OF table_step_ok _ r1]) simp_all
  have s2: "for_st (py_range (length t)) (\<lambda>j. table_step ?n (insertions_body c j)) (?h0(?n \<mapsto> TableObj d1))
              = (None, (?h0(?n \<mapsto> TableObj d1))(?n \<mapsto> TableObj d2))"
    by (rule for_st_sim[where g = "insertions_body c", OF table_step_ok _ r2]) simp_all
  have inner: "\<And>i h d d'. h ?n = Some (TableObj d)
         \<Longrightarrow> for_in (py_range (length t)) (substitutions_body s t c i) d = Inr d'
         \<Longrightarrow> for_st (py_range (length t)) (\<lambda>j. table_step ?n (substitutions_body s t c i j)) h
               = (None, h(?n \<mapsto> TableObj d'))"
    by (rule for_st_sim[OF table_step_ok]) simp_all
  have s3: "for_st (py_range (length s))
              (\<lambda>i. for_st (py_range (length t)) (\<lambda>j. table_step ?n (substitutions_body s t c i j)))
              ((?h0(?n \<mapsto> TableObj d1))(?n \<mapsto> TableObj d2))
              = (None, ((?h0(?n \<mapsto> TableObj d1))(?n \<mapsto> TableObj d2))(?n \<mapsto> TableObj d3))"
    by (rule for_st_sim[where g = "\<lambda>i. for_in (py_range (length t)) (substitutions_body s t c i)",
          OF inner _ r3]) simp_all
  have "edit_path_st s t c st =
     (Inr (cell c s t (length s) (length t)),
      st\<lparr>objects := (objects st)(?n \<mapsto> TableObj d3), next_addr := Suc ?n\<rparr>)"
    using s1 s2 s3 fin by (simp add: edit_path_st_def Let_def getitem_Some)
  then show ?thesis by blast
qed

lemma run_edit_path_st_result:
  "fst (run_edit_path_st s t out cfg st) = run_edit_path s t out cfg"
proof (cases "unpack_costs cfg")
  case (Inl e)
  then show ?thesis by (simp add: run_edit_path_st_def run_edit_path_def)
next
  case (Inr u)
  obtain m i d sc init where u: "u = (m, i, d, sc, init)" by (cases u) auto
  let ?c = "\<lparr>match_cost = num_of m, ins_cost = num_of i, del_cost = num_of d,
             subst_cost = num_of sc, initial_cost = num_of init\<rparr>"
  obtain tb where "edit_path_st s t ?c st =
     (Inr (cell ?c s t (length s) (length t)),
      st\<lparr>objects := (objects st)(next_addr st \<mapsto> TableObj tb), next_addr := Suc (next_addr st)\<rparr>)"
    using edit_path_st_result[of s t ?c st] by blast
  then show ?thesis
    using Inr u by (simp add: run_edit_path_st_def run_edit_path_def edit_path_cell)
qed

lemma run_edit_path_st_frame:
  "default_addr (snd (run_edit_path_st s t out cfg st)) = default_addr st
   \<and> (\<forall>a. a \<noteq> next_addr st \<longrightarrow> objects (snd (run_edit_path_st s t out cfg st)) a = objects st a)"
proof (cases "unpack_costs cfg")
  case (Inl e)
  then show ?thesis by (simp add: run_edit_path_st_def)
next
  case (Inr u)
  obtain m i d sc init where u: "u = (m, i, d, sc, init)" by (cases u) auto
  let ?c = "\<lparr>match_cost = num_of m, ins_cost = num_of i, del_cost = num_of d,
             subst_cost = num_of sc, initial_cost = num_of init\<rparr>"
  obtain tb where "edit_path_st s t ?c st =
     (Inr (cell ?c s t (length s) (length t)),
      st\<lparr>objects := (objects st)(next_addr st \<mapsto> TableObj tb), next_addr := Suc (next_addr st)\<rparr>)"
    using edit_path_st_result[of s t ?c st] by blast
  then show ?thesis
    using Inr u by (simp add: run_edit_path_st_def)
qed

lemma distance_st_result:
  "fst (distance_st s1 s2 out p st) = distance s1 s2 out (cost_at st (cost_addr st p))"
  by (cases "cost_invalid (cost_at st (cost_addr st p))")
     (simp_all add: distance_st_def distance_def run_edit_path_st_result)

lemma distance_st_frame:
  "default_addr (snd (distance_st s1 s2 out p st)) = default_addr st
   \<and> (\<forall>a. a \<noteq> next_addr st \<longrightarrow> objects (snd (distance_st s1 s2 out p st)) a = objects st a)"
  by (cases "cost_invalid (cost_at st (cost_addr st p))")
     (simp_all add: distance_st_def run_edit_path_st_frame)

section \<open>The claims\<close>

subsection \<open>C1\<close>



subsection \<open>C2\<close>

text \<open>
  Claim C2. In the finished matrix every interior cell \<open>(i + 1, j + 1)\<close> holds the candidate
  chosen among the diagonal, horizontal and vertical totals in this order of priority: the
  diagonal one unless another is strictly smaller, then the horizontal one unless the
  vertical one is strictly smaller. The diagonal candidate is labelled \<^verbatim>\<open>SUBST\<close> unless its
  added cost is zero, the horizontal one \<^verbatim>\<open>INS\<close>, the vertical one \<^verbatim>\<open>DEL\<close>; and whenever the
  total of the chosen candidate equals the cumulative cost of its own predecessor, the label
  stored is \<^verbatim>\<open>MATCH\<close>, whichever candidate won.
\<close>

theorem interior_cell_tie_break:
  assumes "i < length s" and "j < length t"
  shows "\<exists>d diag left up. fill_distances s t c = Inr d
           \<and> d (i, j) = Some diag \<and> d (Suc i, j) = Some left \<and> d (i, Suc j) = Some up
           \<and> d (Suc i, Suc j) = Some
               (let sub = (if s ! i = t ! j then match_cost c else subst_cost c);
                    t1 = cost diag + sub;
                    t2 = cost left + ins_cost c;
                    t3 = cost up + del_cost c
                in if t1 \<le> t2 \<and> t1 \<le> t3
                   then Traceback t1 (if t1 = cost diag then MATCH
                                      else if sub \<noteq> 0 then SUBST else MATCH) (Some diag)
                   else if t2 \<le> t3
                   then Traceback t2 (if t2 = cost left then MATCH else INS) (Some left)
                   else Traceback t3 (if t3 = cost up then MATCH else DEL) (Some up))"
proof -
  obtain d where d: "fill_distances s t c = Inr d"
    and cells: "\<forall>a b. a \<le> length s \<and> b \<le> length t \<longrightarrow> d (a, b) = Some (cell c s t a b)"
    using fill_distances_cells by blast
  have "d (i, j) = Some (cell c s t i j)" "d (Suc i, j) = Some (cell c s t (Suc i) j)"
    "d (i, Suc j) = Some (cell c s t i (Suc j))" "d (Suc i, Suc j) = Some (cell c s t (Suc i) (Suc j))"
    using cells assms by simp_all
  moreover have "cell c s t (Suc i) (Suc j) =
      (let sub = (if s ! i = t ! j then match_cost c else subst_cost c);
           t1 = cost (cell c s t i j) + sub;
           t2 = cost (cell c s t (Suc i) j) + ins_cost c;
           t3 = cost (cell c s t i (Suc j)) + del_cost c
       in if t1 \<le> t2 \<and> t1 \<le> t3
          then Traceback t1 (if t1 = cost (cell c s t i j) then MATCH
                             else if sub \<noteq> 0 then SUBST else MATCH) (Some (cell c s t i j))
          else if t2 \<le> t3
          then Traceback t2 (if t2 = cost (cell c s t (Suc i) j) then MATCH else INS) (Some (cell c s t (Suc i) j))
          else Traceback t3 (if t3 = cost (cell c s t i (Suc j)) then MATCH else DEL) (Some (cell c s t i (Suc j))))"
    by (auto simp: pick_def diag_cost_def Let_def add.commute)
  ultimately show ?thesis using d by metis
qed

text \<open>
  The theorem at the strings \<^verbatim>\<open>"a"\<close> and \<^verbatim>\<open>"b"\<close> with substitution cost 2 and the other
  costs as in the default: the three totals are all 2, and the diagonal candidate is stored,
  with the label \<^verbatim>\<open>SUBST\<close>.
\<close>

theorem interior_cell_tie_break_witness:
  "\<exists>d. fill_distances ''a'' ''b'' (unit_costs\<lparr>subst_cost := 2\<rparr>) = Inr d
       \<and> d (0, 0) = Some (Traceback 0 INITIAL None)
       \<and> d (Suc 0, 0) = Some (Traceback 1 DEL (Some (Traceback 0 INITIAL None)))
       \<and> d (0, Suc 0) = Some (Traceback 1 INS (Some (Traceback 0 INITIAL None)))
       \<and> d (Suc 0, Suc 0) = Some (Traceback 2 SUBST (Some (Traceback 0 INITIAL None)))"
proof -
  have h: "0 < length ''a''" "0 < length ''b''" by simp_all
  have ev: "fill_distances ''a'' ''b'' (unit_costs\<lparr>subst_cost := 2\<rparr>) =
      Inr (Map.empty((0, 0) \<mapsto> Traceback 0 INITIAL None,
                     (Suc 0, 0) \<mapsto> Traceback 1 DEL (Some (Traceback 0 INITIAL None)),
                     (0, Suc 0) \<mapsto> Traceback 1 INS (Some (Traceback 0 INITIAL None)),
                     (Suc 0, Suc 0) \<mapsto> Traceback 2 SUBST (Some (Traceback 0 INITIAL None))))"
    by (simp add: run_defs unit_costs_def)
  from interior_cell_tie_break[OF h, of "unit_costs\<lparr>subst_cost := 2\<rparr>"] ev show ?thesis
    by (auto simp: unit_costs_def)
qed

subsection \<open>C3\<close>

text \<open>
  Claim C3. With the default configuration, \<^verbatim>\<open>distance(s, t, "edits")\<close> returns a list that
  contains only \<^verbatim>\<open>MATCH\<close>, \<^verbatim>\<open>INS\<close>, \<^verbatim>\<open>DEL\<close> and \<^verbatim>\<open>SUBST\<close> (never \<^verbatim>\<open>INITIAL\<close>), and applying it
  to \<open>s\<close> from left to right, from the first edit to the last, gives \<open>t\<close>.
\<close>

theorem edits_rebuild_target:
  "\<exists>es. distance (PyStr s) (PyStr t) (PyStr ''edits'') default_cost = Inr (Edits es)
        \<and> set es \<subseteq> {MATCH, INS, DEL, SUBST}
        \<and> apply_edits es s t = Some t"
proof -
  let ?es = "list_edits (final_cell default_cost s t)"
  have run: "distance (PyStr s) (PyStr t) (PyStr ''edits'') default_cost = Inr (Edits ?es)"
    by (simp add: distance_valid valid_default modes_def format_results_def)
  have tr: "transforms ?es s t"
    using default_script[of "length s" s "length t" t] by (simp add: final_cell_def costs_of_default)
  have "INITIAL \<notin> set ?es" using tr by (rule transforms_no_initial)
  then have "set ?es \<subseteq> {MATCH, INS, DEL, SUBST}"
  proof -
    assume a: "INITIAL \<notin> set ?es"
    show ?thesis
    proof
      fix m assume "m \<in> set ?es"
      with a show "m \<in> {MATCH, INS, DEL, SUBST}" by (cases m) auto
    qed
  qed
  moreover have "apply_edits ?es s t = Some t" using tr by (rule transforms_apply)
  ultimately show ?thesis using run by blast
qed

text \<open>
  The theorem at \<^verbatim>\<open>"ab"\<close> and \<^verbatim>\<open>"b"\<close>: the edits are delete, match.
\<close>

theorem edits_rebuild_target_witness:
  "distance (PyStr ''ab'') (PyStr ''b'') (PyStr ''edits'') default_cost = Inr (Edits [DEL, MATCH])
   \<and> apply_edits [DEL, MATCH] ''ab'' ''b'' = Some ''b''"
proof -
  have v: "distance (PyStr ''ab'') (PyStr ''b'') (PyStr ''edits'') default_cost = Inr (Edits [DEL, MATCH])"
    by (simp add: run_defs)
  from edits_rebuild_target[of "''ab''" "''b''"] v show ?thesis by auto
qed

subsection \<open>C4\<close>




subsection \<open>C5\<close>

text \<open>
  Claim C5. For all strings \<open>s\<close> and \<open>t\<close>, \<^verbatim>\<open>sdist(s, t)\<close> returns the same number as
  \<^verbatim>\<open>distance(s, t, "distance")\<close> with the default configuration.
\<close>

theorem sdist_agrees_with_default_distance:
  "\<exists>d. sdist s t = Inr d
       \<and> distance (PyStr s) (PyStr t) (PyStr ''distance'') default_cost = Inr (Distance (PyNum d))"
  by (simp add: sdist_cell distance_valid valid_default modes_def format_results_def
      final_cell_def costs_of_default)

text \<open>
  The theorem at \<^verbatim>\<open>"ab"\<close> and \<^verbatim>\<open>"b"\<close>: both return 1.
\<close>

theorem sdist_agrees_with_default_distance_witness:
  "sdist ''ab'' ''b'' = Inr 1
   \<and> distance (PyStr ''ab'') (PyStr ''b'') (PyStr ''distance'') default_cost = Inr (Distance (PyNum 1))"
proof -
  have v: "sdist ''ab'' ''b'' = Inr 1"
    by (simp add: sdist_def sdist_del_body_def sdist_ins_body_def sdist_body_def getitem_def
        char_at_def py_range_def upt_rec Let_def)
  from sdist_agrees_with_default_distance[of "''ab''" "''b''"] v show ?thesis by auto
qed

subsection \<open>C6\<close>



subsection \<open>C7\<close>

text \<open>
  Claim C7. For all strings and every valid configuration, mode \<^verbatim>\<open>"both"\<close> returns a pair
  of a number and a list of operation kinds; mode \<^verbatim>\<open>"distance"\<close> returns only that number
  and mode \<^verbatim>\<open>"edits"\<close> only that list.
\<close>

theorem both_pairs_distance_with_edits:
  assumes "valid_cost cfg"
  shows "\<exists>d es. distance (PyStr s) (PyStr t) (PyStr ''both'') cfg = Inr (Both (PyNum d) es)
           \<and> distance (PyStr s) (PyStr t) (PyStr ''distance'') cfg = Inr (Distance (PyNum d))
           \<and> distance (PyStr s) (PyStr t) (PyStr ''edits'') cfg = Inr (Edits es)"
  using assms by (simp add: distance_valid modes_def format_results_def)

text \<open>
  The theorem at the default configuration, \<^verbatim>\<open>"ab"\<close> and \<^verbatim>\<open>"b"\<close>.
\<close>

theorem both_pairs_distance_with_edits_witness:
  "valid_cost default_cost
   \<and> distance (PyStr ''ab'') (PyStr ''b'') (PyStr ''both'') default_cost = Inr (Both (PyNum 1) [DEL, MATCH])
   \<and> distance (PyStr ''ab'') (PyStr ''b'') (PyStr ''distance'') default_cost = Inr (Distance (PyNum 1))
   \<and> distance (PyStr ''ab'') (PyStr ''b'') (PyStr ''edits'') default_cost = Inr (Edits [DEL, MATCH])"
proof -
  have v: "distance (PyStr ''ab'') (PyStr ''b'') (PyStr ''both'') default_cost = Inr (Both (PyNum 1) [DEL, MATCH])"
    by (simp add: run_defs)
  from both_pairs_distance_with_edits[OF valid_default, of "''ab''" "''b''"] v valid_default
  show ?thesis by auto
qed

subsection \<open>C8\<close>




subsection \<open>C9\<close>

text \<open>
  Claim C9. \<^verbatim>\<open>distance\<close> raises the exception for a non-string input exactly when the
  source or the target is not a string, whatever the mode and the costs are; and for string
  inputs it raises the exception for an invalid output parameter exactly when the mode is not
  one of \<^verbatim>\<open>"distance"\<close>, \<^verbatim>\<open>"edits"\<close>, \<^verbatim>\<open>"both"\<close>. The three errors that the specification
  names are the three messages of \<^verbatim>\<open>BrewDistanceException\<close>.
\<close>

theorem input_and_mode_errors:
  "(distance s1 s2 out cfg = Inl non_string_input \<longleftrightarrow> \<not> is_str s1 \<or> \<not> is_str s2)
   \<and> (is_str s1 \<and> is_str s2 \<longrightarrow> (distance s1 s2 out cfg = Inl invalid_output \<longleftrightarrow> out \<notin> modes))"
  using after_checks_cases[of cfg "str_of s1" "str_of s2" out] exception_distinct
  by (auto simp: distance_def modes_def)

text \<open>
  The theorem at a number as source, at an unknown mode with an empty cost dictionary, and
  at a call that succeeds.
\<close>

theorem input_and_mode_errors_witness:
  "distance (PyNum 3) (PyStr ''b'') (PyStr ''bogus'') Map.empty = Inl non_string_input
   \<and> distance (PyStr ''a'') (PyStr ''b'') (PyStr ''bogus'') Map.empty = Inl invalid_output
   \<and> distance (PyStr ''a'') (PyStr ''b'') (PyStr ''edits'') default_cost \<noteq> Inl invalid_output
   \<and> distance (PyStr ''a'') (PyStr ''b'') (PyStr ''edits'') default_cost \<noteq> Inl non_string_input"
  using input_and_mode_errors[of "PyNum 3" "PyStr ''b''" "PyStr ''bogus''" Map.empty]
    input_and_mode_errors[of "PyStr ''a''" "PyStr ''b''" "PyStr ''bogus''" Map.empty]
    input_and_mode_errors[of "PyStr ''a''" "PyStr ''b''" "PyStr ''edits''" default_cost]
  by (simp add: modes_def)

subsection \<open>C10\<close>

text \<open>
  Claim C10. A call of \<^verbatim>\<open>distance\<close>, successful or not, never changes the cost dictionary
  it receives: every object that existed before the call, the shared default included, is
  unchanged after it (the only object written is the new dictionary \<^verbatim>\<open>distances\<close>), so the
  call reads the same costs again and a second call with the same arguments returns what the
  first returned.
\<close>

theorem distance_call_keeps_cost_objects:
  assumes "cost_addr st p < next_addr st"
  shows "(\<forall>a<next_addr st. objects (snd (distance_st s1 s2 out p st)) a = objects st a)
       \<and> default_addr (snd (distance_st s1 s2 out p st)) = default_addr st
       \<and> cost_at (snd (distance_st s1 s2 out p st)) (cost_addr st p) = cost_at st (cost_addr st p)
       \<and> fst (distance_st s1 s2 out p (snd (distance_st s1 s2 out p st)))
           = fst (distance_st s1 s2 out p st)"
proof -
  let ?st' = "snd (distance_st s1 s2 out p st)"
  have frame: "default_addr ?st' = default_addr st"
    "\<And>a. a \<noteq> next_addr st \<Longrightarrow> objects ?st' a = objects st a"
    using distance_st_frame[of s1 s2 out p st] by simp_all
  have addr: "cost_addr ?st' p = cost_addr st p"
    using frame(1) by (cases p) (simp_all add: cost_addr_def)
  have same: "cost_at ?st' (cost_addr st p) = cost_at st (cost_addr st p)"
    using frame(2)[of "cost_addr st p"] assms by (simp add: cost_at_def)
  have "fst (distance_st s1 s2 out p ?st') = fst (distance_st s1 s2 out p st)"
    by (simp add: distance_st_result addr same)
  then show ?thesis using frame same by simp
qed

text \<open>
  The theorem at a call that omits the cost argument, in a state whose only object is the
  default: both calls return distance 1 with one substitution, and the default is unchanged.
\<close>

theorem distance_call_keeps_cost_objects_witness:
  "cost_addr st0 Omitted < next_addr st0
   \<and> fst (distance_st (PyStr ''a'') (PyStr ''b'') (PyStr ''both'') Omitted st0)
       = Inr (Both (PyNum 1) [SUBST])
   \<and> cost_at (snd (distance_st (PyStr ''a'') (PyStr ''b'') (PyStr ''both'') Omitted st0)) 0 = default_cost
   \<and> fst (distance_st (PyStr ''a'') (PyStr ''b'') (PyStr ''both'') Omitted
            (snd (distance_st (PyStr ''a'') (PyStr ''b'') (PyStr ''both'') Omitted st0)))
       = Inr (Both (PyNum 1) [SUBST])"
proof -
  have h: "cost_addr st0 Omitted < next_addr st0" by (simp add: cost_addr_def st0_def)
  have c: "cost_addr st0 Omitted = 0" "cost_at st0 0 = default_cost"
    by (simp_all add: cost_at_def cost_addr_def st0_def)
  have v: "distance (PyStr ''a'') (PyStr ''b'') (PyStr ''both'') default_cost = Inr (Both (PyNum 1) [SUBST])"
    by (simp add: run_defs)
  have r: "fst (distance_st (PyStr ''a'') (PyStr ''b'') (PyStr ''both'') Omitted st0)
       = Inr (Both (PyNum 1) [SUBST])"
    by (simp add: distance_st_result c v)
  from distance_call_keeps_cost_objects[OF h, of "PyStr ''a''" "PyStr ''b''" "PyStr ''both''"] h c r
  show ?thesis by simp
qed

end
